theory Spec2Isabelle
  imports Main "HOL-Library.Word"
begin

section \<open>Data model\<close>

text \<open>
  The values of \<^verbatim>\<open>chia/data_layer/data_layer.py\<close>. A \<^verbatim>\<open>bytes32\<close> is a 256-bit word, a
  \<^verbatim>\<open>uint32\<close> a 32-bit word, a Python \<^verbatim>\<open>int\<close> an \<open>int\<close>, \<^verbatim>\<open>bytes\<close> a list of octets.
  \<^verbatim>\<open>Root\<close> and \<^verbatim>\<open>SingletonRecord\<close> both have a field \<^verbatim>\<open>generation\<close>; the two selectors
  are written \<open>Root.generation\<close> and \<open>SingletonRecord.generation\<close>.
\<close>

type_synonym bytes32 = "256 word"
type_synonym bytes = "8 word list"
type_synonym TransactionRecord = nat

datatype Status = PENDING | COMMITTED

datatype DownloadMode = LATEST | HISTORY

record Root =
  node_hash :: "bytes32 option"
  generation :: int
  status :: Status

record SingletonRecord =
  root :: bytes32
  generation :: "32 word"

record Subscription =
  tree_id :: bytes32
  mode :: DownloadMode
  ip :: string
  port :: "16 word"

text \<open>
  Every \<^verbatim>\<open>raise\<close>, failed \<^verbatim>\<open>assert\<close> and out-of-range index of the source is a value
  of \<open>error\<close>; \<open>StoreError\<close> stands for an exception raised inside the data store.
\<close>

datatype error =
    AssertionError
  | IndexError
  | KeyError
  | ValueError
  | RuntimeError string
  | StoreError

datatype Level = INFO | WARNING | ERROR | FATAL

section \<open>The data store\<close>

text \<open>
  Modelled from the spec: \<^verbatim>\<open>chia/data_layer/data_store.py\<close> is not among the sources. The
  store keeps, per tree, the history of local roots in increasing generation order (the
  current root last), the validated wallet generation, and the list of subscriptions.
  \<^item> \<open>get_tree_root\<close> is the current root; it raises when the tree has no local history.
  \<^item> \<open>get_last_tree_root_by_hash\<close> is the most recent root with exactly that hash at or
    before \<open>max_generation\<close>, if there is one.
  \<^item> \<open>store_subscribe\<close> records a subscription, \<open>store_unsubscribe\<close> removes the record
    of a tree.
\<close>

record DataStore =
  roots :: "bytes32 \<Rightarrow> Root list"
  validated_wallet_generation :: "bytes32 \<Rightarrow> int"
  subscriptions :: "Subscription list"

definition get_tree_root :: "DataStore \<Rightarrow> bytes32 \<Rightarrow> error + Root" where
  "get_tree_root ds tid =
     (case roots ds tid of [] \<Rightarrow> Inl StoreError | r # rs \<Rightarrow> Inr (last (r # rs)))"

definition get_last_tree_root_by_hash ::
    "DataStore \<Rightarrow> bytes32 \<Rightarrow> bytes32 \<Rightarrow> int \<Rightarrow> Root option" where
  "get_last_tree_root_by_hash ds tid h max_generation =
     (case rev (filter (\<lambda>r. node_hash r = Some h \<and> Root.generation r \<le> max_generation)
                       (roots ds tid)) of
        [] \<Rightarrow> None
      | r # rs \<Rightarrow> Some r)"

definition get_validated_wallet_generation :: "DataStore \<Rightarrow> bytes32 \<Rightarrow> int" where
  "get_validated_wallet_generation ds tid = validated_wallet_generation ds tid"

definition set_validated_wallet_generation :: "bytes32 \<Rightarrow> int \<Rightarrow> DataStore \<Rightarrow> DataStore" where
  "set_validated_wallet_generation tid g ds =
     ds\<lparr>validated_wallet_generation := (validated_wallet_generation ds)(tid := g)\<rparr>"

definition store_subscribe :: "Subscription \<Rightarrow> DataStore \<Rightarrow> DataStore" where
  "store_subscribe s ds = ds\<lparr>subscriptions := subscriptions ds @ [s]\<rparr>"

definition store_unsubscribe :: "bytes32 \<Rightarrow> DataStore \<Rightarrow> DataStore" where
  "store_unsubscribe tid ds =
     ds\<lparr>subscriptions := filter (\<lambda>s. tree_id s \<noteq> tid) (subscriptions ds)\<rparr>"

section \<open>The collaborators and the state of the service\<close>

text \<open>
  The wallet RPC client, the tree engine of the data store and \<^verbatim>\<open>download_data\<close> are not
  among the sources: they are parameters. The ledger is taken as fixed during one call.
  \<^verbatim>\<open>download_data\<close> pulls tree operations into the local store: it returns its verdict and
  the root histories it leaves behind.
\<close>

record Env =
  create_new_dl :: "bytes32 \<Rightarrow> 64 word \<Rightarrow> error + (TransactionRecord list \<times> bytes32)"
  dl_update_root :: "bytes32 \<Rightarrow> bytes32 \<Rightarrow> 64 word \<Rightarrow> TransactionRecord option"
  dl_latest_singleton :: "bytes32 \<Rightarrow> SingletonRecord option"
  dl_history :: "bytes32 \<Rightarrow> 32 word \<Rightarrow> SingletonRecord list"
  create_tree :: "bytes32 \<Rightarrow> DataStore \<Rightarrow> bool option \<times> DataStore"
  ds_insert :: "bytes \<Rightarrow> bytes \<Rightarrow> bytes32 \<Rightarrow> bytes32 option \<Rightarrow> int option \<Rightarrow> DataStore
                  \<Rightarrow> error + DataStore"
  ds_autoinsert :: "bytes \<Rightarrow> bytes \<Rightarrow> bytes32 \<Rightarrow> DataStore \<Rightarrow> error + DataStore"
  ds_delete :: "bytes \<Rightarrow> bytes32 \<Rightarrow> DataStore \<Rightarrow> error + DataStore"
  download_data :: "DataStore \<Rightarrow> Subscription \<Rightarrow> bytes32 \<Rightarrow> bool \<times> (bytes32 \<Rightarrow> Root list)"

text \<open>
  The trace lists, in order, every call that writes to the data store, every call that
  reaches the wallet or the downloader with an effect, and every call of
  \<^verbatim>\<open>_validate_batch\<close> with its verdict. Reads leave no entry.
\<close>

datatype Call =
    CreateNewDl bytes32 "64 word"
  | CreateTree bytes32
  | StoreInsert bytes bytes bytes32 "bytes32 option" "int option"
  | StoreAutoinsert bytes bytes bytes32
  | StoreDelete bytes bytes32
  | DlUpdateRoot bytes32 bytes32 "64 word"
  | DownloadData bytes32 bytes32
  | SetValidatedWalletGeneration bytes32 int
  | ValidateBatch bytes32 "SingletonRecord list" int int bool
  | DlTrackNew bytes32
  | StoreSubscribe Subscription
  | StoreUnsubscribe bytes32
  | DlStopTracking bytes32

record World =
  data_store :: DataStore
  initialized :: bool
  log :: "(Level \<times> string) list"
  trace :: "Call list"

definition log_msg :: "Level \<Rightarrow> string \<Rightarrow> World \<Rightarrow> World" where
  "log_msg lvl msg w = w\<lparr>log := log w @ [(lvl, msg)]\<rparr>"

definition call :: "Call \<Rightarrow> World \<Rightarrow> World" where
  "call c w = w\<lparr>trace := trace w @ [c]\<rparr>"

definition uint32 :: "int \<Rightarrow> error + 32 word" where
  \<comment> \<open>the constructor \<^verbatim>\<open>uint32(x)\<close>: a value that does not fit is rejected\<close>
  "uint32 x = (if 0 \<le> x \<and> x < 2 ^ 32 then Inr (word_of_int x) else Inl ValueError)"

section \<open>\<^verbatim>\<open>_validate_batch\<close>\<close>

text \<open>
  The loop over \<^verbatim>\<open>to_check\<close>, with the loop variables \<^verbatim>\<open>max_generation\<close> and
  \<^verbatim>\<open>last_checked_hash\<close> as arguments. The result is the verdict and the lines logged.
\<close>

fun validate_batch_loop ::
    "DataStore \<Rightarrow> bytes32 \<Rightarrow> SingletonRecord list \<Rightarrow> int \<Rightarrow> int \<Rightarrow> bytes32 option
       \<Rightarrow> bool \<times> (Level \<times> string) list" where
  "validate_batch_loop ds tid [] min_generation max_generation last_checked_hash = (True, [])"
| "validate_batch_loop ds tid (record # to_check) min_generation max_generation last_checked_hash =
     (if last_checked_hash \<noteq> None \<and> Some (root record) = last_checked_hash
      then validate_batch_loop ds tid to_check min_generation max_generation last_checked_hash
      else
        (case get_last_tree_root_by_hash ds tid (root record) max_generation of
           None \<Rightarrow> (False, [])
         | Some r \<Rightarrow>
             if Root.generation r < min_generation then (False, [])
             else
               (let (ok, lines) =
                      validate_batch_loop ds tid to_check min_generation (Root.generation r)
                        (Some (root record))
                in (ok, (INFO, ''Validated chain hash in downloaded datastore.'') # lines))))"

definition validate_batch ::
    "DataStore \<Rightarrow> bytes32 \<Rightarrow> SingletonRecord list \<Rightarrow> int \<Rightarrow> int \<Rightarrow> bool \<times> (Level \<times> string) list" where
  "validate_batch ds tid to_check min_generation max_generation =
     validate_batch_loop ds tid to_check min_generation max_generation None"

text \<open>The local history of Scenario C: generations 1, 2, 3 with hashes \<open>A\<close>, \<open>B\<close>, \<open>C\<close>.\<close>

definition scenario_store :: "bytes32 \<Rightarrow> bytes32 \<Rightarrow> bytes32 \<Rightarrow> bytes32 \<Rightarrow> DataStore" where
  "scenario_store tid A B C =
     \<lparr>roots = (\<lambda>t. if t = tid
                    then [\<lparr>node_hash = Some A, generation = 1, status = COMMITTED\<rparr>,
                          \<lparr>node_hash = Some B, generation = 2, status = COMMITTED\<rparr>,
                          \<lparr>node_hash = Some C, generation = 3, status = COMMITTED\<rparr>]
                    else []),
      validated_wallet_generation = (\<lambda>t. 0),
      subscriptions = []\<rparr>"

definition rec_of :: "bytes32 \<Rightarrow> 32 word \<Rightarrow> SingletonRecord" where
  "rec_of h g = \<lparr>root = h, generation = g\<rparr>"

section \<open>\<^verbatim>\<open>fetch_and_validate\<close>\<close>

text \<open>
  The method is one straight run of checks; it is cut here into the stages the spec
  numbers. A stage returns from the method (\<open>Return\<close>), raises (\<open>Raise\<close>) or hands its
  values to the next stage (\<open>Continue\<close>).
\<close>

datatype 'a step = Return | Raise error | Continue 'a

text \<open>
  Lines 176 to 201: the latest singleton record, the old root (an exception of
  \<^verbatim>\<open>get_tree_root\<close> is swallowed), the assertion on the validated generation, the no-op
  exits and the candidate list.
\<close>

definition fetch_candidates ::
    "Env \<Rightarrow> Subscription \<Rightarrow> World
       \<Rightarrow> (SingletonRecord \<times> Root option \<times> int \<times> SingletonRecord list) step \<times> World" where
  "fetch_candidates env subscription w =
     (let tid = tree_id subscription in
      case dl_latest_singleton env tid of
        None \<Rightarrow> (Return, log_msg INFO ''Fetch data: No singleton record.'' w)
      | Some singleton_record \<Rightarrow>
          if SingletonRecord.generation singleton_record = 0
          then (Return, log_msg INFO ''Fetch data: No data on chain.'' w)
          else
            (let old_root = (case get_tree_root (data_store w) tid of
                               Inl e \<Rightarrow> None
                             | Inr r \<Rightarrow> Some r);
                 wallet_current_generation = get_validated_wallet_generation (data_store w) tid
             in if \<not> wallet_current_generation \<le> uint (SingletonRecord.generation singleton_record)
                then (Raise AssertionError, w)
                else
                  (case uint32 wallet_current_generation of
                     Inl e \<Rightarrow> (Raise e, w)
                   | Inr g \<Rightarrow>
                       if g = SingletonRecord.generation singleton_record
                       then (Return,
                             log_msg INFO ''Fetch data: wallet generation matching on-chain generation.'' w)
                       else
                         (case mode subscription of
                            LATEST \<Rightarrow>
                              (Continue (singleton_record, old_root, wallet_current_generation,
                                         [singleton_record]), w)
                          | HISTORY \<Rightarrow>
                              (case uint32 (wallet_current_generation + 1) of
                                 Inl e \<Rightarrow> (Raise e, w)
                               | Inr m \<Rightarrow>
                                   (Continue (singleton_record, old_root, wallet_current_generation,
                                              dl_history env tid m), w))))))"

text \<open>
  Lines 204 to 209, the condition of the fast-forward: \<^verbatim>\<open>to_check[0]\<close> is read only when
  the old root exists and has a hash, and raises on an empty list;
  \<^verbatim>\<open>len(set(...)) == 1\<close> counts the distinct root hashes.
\<close>

definition fast_forward :: "Root option \<Rightarrow> SingletonRecord list \<Rightarrow> error + bool" where
  "fast_forward old_root to_check =
     (case old_root of
        None \<Rightarrow> Inr False
      | Some r \<Rightarrow>
          (case node_hash r of
             None \<Rightarrow> Inr False
           | Some h \<Rightarrow>
               (case to_check of
                  [] \<Rightarrow> Inl IndexError
                | c # cs \<Rightarrow> Inr (root c = h \<and> length (remdups (map root to_check)) = 1))))"

text \<open>
  Lines 217 to 219: \<^verbatim>\<open>while to_check[-1].root == old_root.node_hash: to_check.pop()\<close>.
  Reading the last element of an empty list raises.
\<close>

function trim_loop :: "SingletonRecord list \<Rightarrow> bytes32 \<Rightarrow> error + SingletonRecord list" where
  "trim_loop to_check h =
     (if to_check = [] then Inl IndexError
      else if root (last to_check) = h then trim_loop (butlast to_check) h
      else Inr to_check)"
  by pat_completeness auto
termination
  by (relation "measure (\<lambda>(to_check, h). length to_check)") auto

declare trim_loop.simps [simp del]

definition trim :: "Root option \<Rightarrow> SingletonRecord list \<Rightarrow> error + SingletonRecord list" where
  "trim old_root to_check =
     (case old_root of
        None \<Rightarrow> Inr to_check
      | Some r \<Rightarrow>
          (case node_hash r of
             None \<Rightarrow> Inr to_check
           | Some h \<Rightarrow> trim_loop to_check h))"

text \<open>Line 269 and line 210: the write of the validated generation.\<close>

definition commit_generation :: "bytes32 \<Rightarrow> SingletonRecord \<Rightarrow> World \<Rightarrow> World" where
  "commit_generation tid singleton_record w =
     call (SetValidatedWalletGeneration tid (uint (SingletonRecord.generation singleton_record)))
       (w\<lparr>data_store :=
            set_validated_wallet_generation tid
              (uint (SingletonRecord.generation singleton_record)) (data_store w)\<rparr>)"

definition run_validate_batch ::
    "bytes32 \<Rightarrow> SingletonRecord list \<Rightarrow> int \<Rightarrow> int \<Rightarrow> World \<Rightarrow> bool \<times> World" where
  "run_validate_batch tid to_check min_generation max_generation w =
     (let (is_valid, lines) =
            validate_batch (data_store w) tid to_check min_generation max_generation
      in (is_valid,
          call (ValidateBatch tid to_check min_generation max_generation is_valid)
            (w\<lparr>log := log w @ lines\<rparr>)))"

text \<open>
  Lines 248 to 269: light validation, the fallback over the whole history (whose first
  entry is read for the log line and popped, so an empty history raises), the commit.
\<close>

definition validate_and_commit ::
    "Env \<Rightarrow> bytes32 \<Rightarrow> SingletonRecord \<Rightarrow> SingletonRecord list \<Rightarrow> int \<Rightarrow> int \<Rightarrow> World
       \<Rightarrow> (error + unit) \<times> World" where
  "validate_and_commit env tid singleton_record to_check min_generation max_generation w =
     (let (is_valid, w1) = run_validate_batch tid to_check min_generation max_generation w
      in if \<not> is_valid
         then
           (let w2 = log_msg WARNING ''Light validation failed. Validating all history.'' w1
            in case dl_history env tid 1 of
                 [] \<Rightarrow> (Inl IndexError, w2)
               | c # rest \<Rightarrow>
                   (let w3 = log_msg INFO ''Validated chain hash in downloaded datastore.'' w2;
                        (is_valid2, w4) = run_validate_batch tid rest 0 max_generation w3
                    in if \<not> is_valid2
                       then (Inl (RuntimeError ''Could not validate on-chain data.''), w4)
                       else (Inr (),
                             commit_generation tid singleton_record
                               (log_msg INFO ''Finished downloading and validating.'' w4))))
         else (Inr (),
               commit_generation tid singleton_record
                 (log_msg INFO ''Finished downloading and validating.'' w1)))"

text \<open>
  Lines 221 to 246: the download (whatever its verdict, the store keeps the roots the
  downloader left), the comparison of the new local root with the first candidate.
\<close>

definition download_and_validate ::
    "Env \<Rightarrow> Subscription \<Rightarrow> SingletonRecord \<Rightarrow> Root option \<Rightarrow> SingletonRecord list \<Rightarrow> World
       \<Rightarrow> (error + unit) \<times> World" where
  "download_and_validate env subscription singleton_record old_root to_check w =
     (let tid = tree_id subscription;
          w1 = log_msg INFO ''Downloading and validating.'' w;
          (downloaded, roots') =
             download_data env (data_store w1) subscription (root singleton_record);
          w2 = call (DownloadData tid (root singleton_record))
                 (w1\<lparr>data_store := (data_store w1)\<lparr>roots := roots'\<rparr>\<rparr>)
      in if \<not> downloaded then (Inl (RuntimeError ''Could not download the data.''), w2)
         else
           (let w3 = log_msg INFO ''Successfully downloaded data.'' w2
            in case get_tree_root (data_store w3) tid of
                 Inl e \<Rightarrow> (Inl e, w3)
               | Inr r \<Rightarrow>
                   (case node_hash r of
                      None \<Rightarrow> (Inl (RuntimeError ''Can't find data on chain in our datastore.''), w3)
                    | Some h \<Rightarrow>
                        (case to_check of
                           [] \<Rightarrow> (Inl IndexError, w3)
                         | c # rest \<Rightarrow>
                             if h \<noteq> root c
                             then (Inl (RuntimeError ''Can't find data on chain in our datastore.''), w3)
                             else
                               validate_and_commit env tid singleton_record rest
                                 ((case old_root of None \<Rightarrow> 0 | Some r0 \<Rightarrow> Root.generation r0) + 1)
                                 (Root.generation r)
                                 (log_msg INFO ''Validated chain hash in downloaded datastore.'' w3)))))"

text \<open>Lines 202 to 269: fast-forward, trimming, then the download stage.\<close>

definition check_candidates ::
    "Env \<Rightarrow> Subscription \<Rightarrow> SingletonRecord \<Rightarrow> Root option \<Rightarrow> SingletonRecord list \<Rightarrow> World
       \<Rightarrow> (error + unit) \<times> World" where
  "check_candidates env subscription singleton_record old_root to_check w =
     (case fast_forward old_root to_check of
        Inl e \<Rightarrow> (Inl e, w)
      | Inr True \<Rightarrow>
          (Inr (),
           log_msg INFO ''Fetch data: fast-forwarded as all on-chain hashes are identical to our root hash.''
             (commit_generation (tree_id subscription) singleton_record w))
      | Inr False \<Rightarrow>
          (case trim old_root to_check of
             Inl e \<Rightarrow> (Inl e, w)
           | Inr trimmed \<Rightarrow>
               download_and_validate env subscription singleton_record old_root trimmed w))"

definition fetch_and_validate :: "Env \<Rightarrow> Subscription \<Rightarrow> World \<Rightarrow> (error + unit) \<times> World" where
  "fetch_and_validate env subscription w =
     (case fetch_candidates env subscription w of
        (Return, w') \<Rightarrow> (Inr (), w')
      | (Raise e, w') \<Rightarrow> (Inl e, w')
      | (Continue (singleton_record, old_root, wallet_current_generation, to_check), w') \<Rightarrow>
          check_candidates env subscription singleton_record old_root to_check w')"

section \<open>Subscriptions\<close>

definition get_subscriptions :: "World \<Rightarrow> Subscription list" where
  "get_subscriptions w = subscriptions (data_store w)"

text \<open>
  \<^verbatim>\<open>subscribe\<close> runs in three pieces, each of them atomic, with a point of suspension
  (an \<^verbatim>\<open>await\<close>) after each: lines 272 to 275 take the list of subscriptions under
  the lock, release the lock and test the membership; line 276 asks the wallet to track
  the tree; lines 277 to 279 take the lock again, record the subscription and log.
\<close>

definition subscribe_present :: "Subscription \<Rightarrow> World \<Rightarrow> bool" where
  "subscribe_present subscription w =
     (let subscriptions' = get_subscriptions w
      in tree_id subscription \<in> set (map tree_id subscriptions'))"

definition subscribe_track :: "Subscription \<Rightarrow> World \<Rightarrow> World" where
  "subscribe_track subscription w = call (DlTrackNew (tree_id subscription)) w"

definition subscribe_record :: "Subscription \<Rightarrow> World \<Rightarrow> World" where
  "subscribe_record subscription w =
     log_msg INFO ''Subscribed''
       (call (StoreSubscribe subscription)
          (w\<lparr>data_store := store_subscribe subscription (data_store w)\<rparr>))"

text \<open>One call of \<^verbatim>\<open>subscribe\<close> that runs from its first line to its last undisturbed.\<close>

definition subscribe :: "bytes32 \<Rightarrow> DownloadMode \<Rightarrow> string \<Rightarrow> 16 word \<Rightarrow> World \<Rightarrow> World" where
  "subscribe store_id mode' ip' port' w =
     (let subscription = \<lparr>tree_id = store_id, mode = mode', ip = ip', port = port'\<rparr>
      in if subscribe_present subscription w then w
         else subscribe_record subscription (subscribe_track subscription w))"

text \<open>
  Calls of \<^verbatim>\<open>subscribe\<close> that overlap: a call is a task that is about to run one of its
  three pieces, or has returned. The event loop resumes one task at a time; a schedule
  names, step by step, which of two callers runs its next piece.
\<close>

datatype SubscribeTask =
    Checking Subscription
  | Tracking Subscription
  | Recording Subscription
  | Returned

fun subscribe_step :: "SubscribeTask \<Rightarrow> World \<Rightarrow> SubscribeTask \<times> World" where
  "subscribe_step (Checking subscription) w =
     (if subscribe_present subscription w then (Returned, w) else (Tracking subscription, w))"
| "subscribe_step (Tracking subscription) w = (Recording subscription, subscribe_track subscription w)"
| "subscribe_step (Recording subscription) w = (Returned, subscribe_record subscription w)"
| "subscribe_step Returned w = (Returned, w)"

datatype Caller = First | Second

fun run_schedule ::
    "Caller list \<Rightarrow> SubscribeTask \<times> SubscribeTask \<Rightarrow> World
       \<Rightarrow> (SubscribeTask \<times> SubscribeTask) \<times> World" where
  "run_schedule [] tasks w = (tasks, w)"
| "run_schedule (First # schedule) (t1, t2) w =
     (let (t1', w') = subscribe_step t1 w in run_schedule schedule (t1', t2) w')"
| "run_schedule (Second # schedule) (t1, t2) w =
     (let (t2', w') = subscribe_step t2 w in run_schedule schedule (t1, t2') w')"

definition unsubscribe :: "bytes32 \<Rightarrow> World \<Rightarrow> World" where
  "unsubscribe tid w =
     (let subscriptions' = get_subscriptions w
      in if tid \<notin> set (map tree_id subscriptions') then w
         else
           (let w1 = call (StoreUnsubscribe tid)
                       (w\<lparr>data_store := store_unsubscribe tid (data_store w)\<rparr>);
                w2 = call (DlStopTracking tid) w1
            in log_msg INFO ''Unsubscribed'' w2))"

section \<open>\<^verbatim>\<open>create_store\<close> and \<^verbatim>\<open>batch_update\<close>\<close>

definition create_store ::
    "Env \<Rightarrow> 64 word \<Rightarrow> bytes32 \<Rightarrow> World \<Rightarrow> (error + TransactionRecord list \<times> bytes32) \<times> World" where
  "create_store env fee root0 w =
     (let w1 = call (CreateNewDl root0 fee) w
      in case create_new_dl env root0 fee of
           Inl e \<Rightarrow> (Inl e, w1)
         | Inr (txs, tid) \<Rightarrow>
             (let (res, ds') = create_tree env tid (data_store w1);
                  w2 = call (CreateTree tid) (w1\<lparr>data_store := ds'\<rparr>);
                  w3 = (if res = None then log_msg FATAL ''failed creating store'' w2 else w2)
              in (Inr (txs, tid), w3\<lparr>initialized := True\<rparr>)))"

text \<open>
  A change is a \<^verbatim>\<open>Dict[str, Any]\<close>: each key may be missing (\<open>None\<close>). \<^verbatim>\<open>change["key"]\<close>
  raises on a missing key, \<^verbatim>\<open>change.get("side")\<close> gives \<^verbatim>\<open>None\<close>. The value under
  \<^verbatim>\<open>"side"\<close> is an integer (the data layer's \<^verbatim>\<open>Side\<close> is an integer enumeration whose
  left side is 0), the one under \<^verbatim>\<open>"reference_node_hash"\<close> a \<^verbatim>\<open>bytes32\<close>.
\<close>

record Change =
  action :: "string option"
  change_key :: "bytes option"
  change_value :: "bytes option"
  reference_node_hash :: "bytes32 option"
  side :: "int option"

text \<open>
  Python's truth test of \<^verbatim>\<open>reference_node_hash or side\<close>: \<^verbatim>\<open>None\<close> is false, a
  \<^verbatim>\<open>bytes32\<close> (32 octets, never empty) is true, an integer is true when it is not zero.
\<close>

definition truthy_hint :: "bytes32 option \<Rightarrow> int option \<Rightarrow> bool" where
  "truthy_hint reference_node_hash' side' =
     (reference_node_hash' \<noteq> None \<or> (case side' of None \<Rightarrow> False | Some n \<Rightarrow> n \<noteq> 0))"

definition store_call ::
    "Call \<Rightarrow> (DataStore \<Rightarrow> error + DataStore) \<Rightarrow> World \<Rightarrow> (error + unit) \<times> World" where
  "store_call c f w =
     (case f (data_store w) of
        Inl e \<Rightarrow> (Inl e, call c w)
      | Inr ds' \<Rightarrow> (Inr (), call c (w\<lparr>data_store := ds'\<rparr>)))"

definition apply_change :: "Env \<Rightarrow> bytes32 \<Rightarrow> Change \<Rightarrow> World \<Rightarrow> (error + unit) \<times> World" where
  "apply_change env tid change w =
     (case action change of
        None \<Rightarrow> (Inl KeyError, w)
      | Some a \<Rightarrow>
          if a = ''insert''
          then
            (case change_key change of
               None \<Rightarrow> (Inl KeyError, w)
             | Some k \<Rightarrow>
                 (case change_value change of
                    None \<Rightarrow> (Inl KeyError, w)
                  | Some v \<Rightarrow>
                      if truthy_hint (reference_node_hash change) (side change)
                      then
                        (case store_call
                                (StoreInsert k v tid (reference_node_hash change) (side change))
                                (ds_insert env k v tid (reference_node_hash change) (side change)) w of
                           (Inl e, w1) \<Rightarrow> (Inl e, w1)
                         | (Inr u, w1) \<Rightarrow>
                             store_call (StoreAutoinsert k v tid) (ds_autoinsert env k v tid) w1)
                      else store_call (StoreAutoinsert k v tid) (ds_autoinsert env k v tid) w))
          else if a \<noteq> ''delete'' then (Inl AssertionError, w)
          else
            (case change_key change of
               None \<Rightarrow> (Inl KeyError, w)
             | Some k \<Rightarrow> store_call (StoreDelete k tid) (ds_delete env k tid) w))"

fun apply_changes :: "Env \<Rightarrow> bytes32 \<Rightarrow> Change list \<Rightarrow> World \<Rightarrow> (error + unit) \<times> World" where
  "apply_changes env tid [] w = (Inr (), w)"
| "apply_changes env tid (change # changelist) w =
     (case apply_change env tid change w of
        (Inl e, w1) \<Rightarrow> (Inl e, w1)
      | (Inr u, w1) \<Rightarrow> apply_changes env tid changelist w1)"

definition batch_update ::
    "Env \<Rightarrow> bytes32 \<Rightarrow> Change list \<Rightarrow> 64 word \<Rightarrow> World \<Rightarrow> (error + TransactionRecord) \<times> World" where
  "batch_update env tid changelist fee w =
     (case apply_changes env tid changelist w of
        (Inl e, w1) \<Rightarrow> (Inl e, w1)
      | (Inr u, w1) \<Rightarrow>
          (case get_tree_root (data_store w1) tid of
             Inl e \<Rightarrow> (Inl e, w1)
           | Inr r \<Rightarrow>
               (let node_hash' = (case node_hash r of Some h \<Rightarrow> h | None \<Rightarrow> 0);
                    w2 = call (DlUpdateRoot tid node_hash' fee) w1
                in case dl_update_root env tid node_hash' fee of
                     None \<Rightarrow> (Inl AssertionError, w2)
                   | Some transaction_record \<Rightarrow> (Inr transaction_record, w2))))"

section \<open>What a run leaves in the trace\<close>

text \<open>
  \<open>no_write\<close>: no entry of the trace is a write of the validated generation.
  \<open>validated_commit\<close>: the entries after the download are a successful light validation,
  or a failed light and a successful full validation (from generation 0, with the same
  upper bound), followed by the write of the record's generation; the verdict is the one
  \<open>validate_batch\<close> gives on the store \<open>ds\<close>.
  \<open>nothing_new\<close>: the ledger has no record for the tree, or only generation 0, or the
  generation already validated.
\<close>

definition no_write :: "Call list \<Rightarrow> bool" where
  "no_write evs = (\<forall>t g. SetValidatedWalletGeneration t g \<notin> set evs)"

definition validated_commit :: "bytes32 \<Rightarrow> SingletonRecord \<Rightarrow> DataStore \<Rightarrow> Call list \<Rightarrow> bool" where
  "validated_commit tid sr ds evs =
     ((\<exists>tc mn mx.
         evs = [ValidateBatch tid tc mn mx True,
                SetValidatedWalletGeneration tid (uint (SingletonRecord.generation sr))]
         \<and> fst (validate_batch ds tid tc mn mx))
      \<or> (\<exists>tc mn mx tc'.
         evs = [ValidateBatch tid tc mn mx False, ValidateBatch tid tc' 0 mx True,
                SetValidatedWalletGeneration tid (uint (SingletonRecord.generation sr))]
         \<and> fst (validate_batch ds tid tc' 0 mx)))"

definition nothing_new :: "Env \<Rightarrow> bytes32 \<Rightarrow> DataStore \<Rightarrow> bool" where
  "nothing_new env tid ds =
     (case dl_latest_singleton env tid of
        None \<Rightarrow> True
      | Some sr \<Rightarrow>
          SingletonRecord.generation sr = 0
          \<or> uint (SingletonRecord.generation sr) = validated_wallet_generation ds tid)"

section \<open>Concrete inputs\<close>

text \<open>
  A ledger with the given latest record and history (newest first, as
  \<^verbatim>\<open>fetch_and_validate\<close> reads it: the first candidate is compared with the downloaded
  root), a downloader with the given verdict that leaves the given roots for the tree, a
  tree engine that accepts every operation, and a \<^verbatim>\<open>create_tree\<close> that returns \<^verbatim>\<open>None\<close>.
\<close>

definition example_env ::
    "SingletonRecord option \<Rightarrow> SingletonRecord list \<Rightarrow> bool \<Rightarrow> Root list \<Rightarrow> Env" where
  "example_env latest history ok downloaded =
     \<lparr>create_new_dl = (\<lambda>r f. Inr ([0], 7)),
      dl_update_root = (\<lambda>t h f. Some 0),
      dl_latest_singleton = (\<lambda>t. latest),
      dl_history = (\<lambda>t m. filter (\<lambda>r. m \<le> SingletonRecord.generation r) history),
      create_tree = (\<lambda>t ds. (None, ds)),
      ds_insert = (\<lambda>k v t h s ds. Inr ds),
      ds_autoinsert = (\<lambda>k v t ds. Inr ds),
      ds_delete = (\<lambda>k t ds. Inr ds),
      download_data = (\<lambda>ds s h. (ok, (roots ds)(tree_id s := downloaded)))\<rparr>"

definition example_world :: "Root list \<Rightarrow> int \<Rightarrow> World" where
  "example_world rs g =
     \<lparr>data_store = \<lparr>roots = (\<lambda>t. rs), validated_wallet_generation = (\<lambda>t. g),
                     subscriptions = []\<rparr>,
      initialized = False, log = [], trace = []\<rparr>"

definition root_of :: "bytes32 \<Rightarrow> int \<Rightarrow> Root" where
  "root_of h g = \<lparr>node_hash = Some h, generation = g, status = COMMITTED\<rparr>"

definition example_subscription :: "DownloadMode \<Rightarrow> Subscription" where
  "example_subscription m = \<lparr>tree_id = 7, mode = m, ip = ''127.0.0.1'', port = 8000\<rparr>"

definition example_history :: "SingletonRecord list" where
  "example_history = [rec_of 3 3, rec_of 2 2, rec_of 1 1]"

definition example_roots :: "Root list" where
  "example_roots = [root_of 1 1, root_of 2 2, root_of 3 3]"

definition insert_left :: Change where
  "insert_left =
     \<lparr>action = Some ''insert'', change_key = Some [1], change_value = Some [2],
      reference_node_hash = None, side = Some 0\<rparr>"

definition insert_right :: Change where
  "insert_right =
     \<lparr>action = Some ''insert'', change_key = Some [1], change_value = Some [2],
      reference_node_hash = None, side = Some 1\<rparr>"

section \<open>Frame lemmas\<close>

lemma uint32_uint: "uint32 (uint g) = Inr g"
  using uint_lt2p [of g] by (simp add: uint32_def)

lemma uint32_Inr: "uint32 x = Inr g \<Longrightarrow> 0 \<le> x \<and> x < 2 ^ 32 \<and> g = word_of_int x"
  by (auto simp add: uint32_def split: if_splits)

lemma uint32_Inr_uint: "uint32 x = Inr g \<Longrightarrow> uint g = x"
  by (auto simp add: uint32_def uint_word_of_int_eq take_bit_int_eq_self split: if_splits)

lemma log_msg_frame [simp]:
  "data_store (log_msg l m w) = data_store w" "trace (log_msg l m w) = trace w"
  "initialized (log_msg l m w) = initialized w"
  by (simp_all add: log_msg_def)

lemma call_frame [simp]:
  "data_store (call c w) = data_store w" "trace (call c w) = trace w @ [c]"
  "initialized (call c w) = initialized w" "log (call c w) = log w"
  by (simp_all add: call_def)

lemma set_validated_frame [simp]:
  "roots (set_validated_wallet_generation tid g ds) = roots ds"
  "subscriptions (set_validated_wallet_generation tid g ds) = subscriptions ds"
  "validated_wallet_generation (set_validated_wallet_generation tid g ds)
     = (validated_wallet_generation ds)(tid := g)"
  by (simp_all add: set_validated_wallet_generation_def)

lemma commit_generation_frame [simp]:
  "data_store (commit_generation tid sr w)
     = set_validated_wallet_generation tid (uint (SingletonRecord.generation sr)) (data_store w)"
  "trace (commit_generation tid sr w)
     = trace w @ [SetValidatedWalletGeneration tid (uint (SingletonRecord.generation sr))]"
  "initialized (commit_generation tid sr w) = initialized w"
  by (simp_all add: commit_generation_def)

lemma no_write_simps [simp]:
  "no_write []"
  "no_write (c # evs) = ((\<forall>t g. c \<noteq> SetValidatedWalletGeneration t g) \<and> no_write evs)"
  by (auto simp add: no_write_def)

section \<open>\<open>validate_batch\<close> reads the root histories only\<close>

lemma validate_batch_loop_roots:
  "roots ds = roots ds' \<Longrightarrow>
   validate_batch_loop ds tid tc mn mx l = validate_batch_loop ds' tid tc mn mx l"
proof (induction tc arbitrary: mx l)
  case Nil
  then show ?case by simp
next
  case (Cons c tc)
  have g: "get_last_tree_root_by_hash ds tid (root c) mx
         = get_last_tree_root_by_hash ds' tid (root c) mx"
    using Cons.prems by (simp add: get_last_tree_root_by_hash_def)
  show ?case
    by (simp add: g Cons.IH [OF Cons.prems] split: option.splits)
qed

lemma validate_batch_roots:
  "roots ds = roots ds' \<Longrightarrow> validate_batch ds tid tc mn mx = validate_batch ds' tid tc mn mx"
  unfolding validate_batch_def by (rule validate_batch_loop_roots)

lemma validate_batch_set_validated [simp]:
  "validate_batch (set_validated_wallet_generation t g ds) tid tc mn mx
     = validate_batch ds tid tc mn mx"
  by (rule validate_batch_roots) simp

lemma validated_commit_set_validated [simp]:
  "validated_commit tid sr (set_validated_wallet_generation t g ds) evs
     = validated_commit tid sr ds evs"
  by (simp add: validated_commit_def)

lemma validated_commit_write:
  "validated_commit tid sr ds evs \<Longrightarrow> \<not> no_write evs"
  by (auto simp add: validated_commit_def)

section \<open>The stages of \<open>fetch_and_validate\<close>\<close>

lemma fetch_candidates_frame:
  "fetch_candidates env sub w = (st, w1) \<Longrightarrow>
   data_store w1 = data_store w \<and> trace w1 = trace w \<and> initialized w1 = initialized w"
  unfolding fetch_candidates_def Let_def
  by (simp split: option.splits if_splits sum.splits DownloadMode.splits) auto

lemma fetch_candidates_Continue_raw:
  assumes "fetch_candidates env sub w = (Continue (sr, old_root, wcg, tc), w1)"
  shows "dl_latest_singleton env (tree_id sub) = Some sr
       \<and> SingletonRecord.generation sr \<noteq> 0
       \<and> wcg = validated_wallet_generation (data_store w) (tree_id sub)
       \<and> wcg \<le> uint (SingletonRecord.generation sr)
       \<and> (\<exists>g. uint32 wcg = Inr g \<and> g \<noteq> SingletonRecord.generation sr) \<and> w1 = w
       \<and> old_root = (case get_tree_root (data_store w) (tree_id sub) of
                        Inl e \<Rightarrow> None | Inr r \<Rightarrow> Some r)"
proof (cases "dl_latest_singleton env (tree_id sub)")
  case None
  with assms show ?thesis by (simp add: fetch_candidates_def Let_def)
next
  case (Some sr')
  show ?thesis
  proof (cases "SingletonRecord.generation sr' = 0")
    case True
    with Some assms show ?thesis by (simp add: fetch_candidates_def Let_def)
  next
    case False
    let ?wcg = "validated_wallet_generation (data_store w) (tree_id sub)"
    show ?thesis
    proof (cases "?wcg \<le> uint (SingletonRecord.generation sr')")
      case le: False
      with Some False assms show ?thesis
        by (simp add: fetch_candidates_def get_validated_wallet_generation_def Let_def)
    next
      case le: True
      show ?thesis
      proof (cases "uint32 ?wcg")
        case (Inl e)
        with Some False le assms show ?thesis
          by (simp add: fetch_candidates_def get_validated_wallet_generation_def Let_def)
      next
        case (Inr g)
        show ?thesis
        proof (cases "g = SingletonRecord.generation sr'")
          case True
          with Some False le Inr assms show ?thesis
            by (simp add: fetch_candidates_def get_validated_wallet_generation_def Let_def)
        next
          case ne: False
          with Some False le Inr assms show ?thesis
            by (cases "mode sub"; cases "uint32 (?wcg + 1)")
               (auto simp add: fetch_candidates_def get_validated_wallet_generation_def Let_def)
        qed
      qed
    qed
  qed
qed

lemma fetch_candidates_Continue:
  assumes "fetch_candidates env sub w = (Continue (sr, old_root, wcg, tc), w1)"
  shows "w1 = w \<and> dl_latest_singleton env (tree_id sub) = Some sr
       \<and> SingletonRecord.generation sr \<noteq> 0
       \<and> wcg = validated_wallet_generation (data_store w) (tree_id sub)
       \<and> 0 \<le> wcg \<and> wcg < uint (SingletonRecord.generation sr)"
proof -
  from fetch_candidates_Continue_raw [OF assms] obtain g where
    a: "dl_latest_singleton env (tree_id sub) = Some sr"
       "SingletonRecord.generation sr \<noteq> 0"
       "wcg = validated_wallet_generation (data_store w) (tree_id sub)"
       "wcg \<le> uint (SingletonRecord.generation sr)"
       "uint32 wcg = Inr g" "g \<noteq> SingletonRecord.generation sr" "w1 = w"
    by blast
  from uint32_Inr [OF a(5)] have b: "0 \<le> wcg" "g = word_of_int wcg" by simp_all
  have "wcg \<noteq> uint (SingletonRecord.generation sr)"
    using a(6) b(2) by auto
  with a b show ?thesis by simp
qed

lemma run_validate_batch_frame:
  assumes "run_validate_batch tid tc mn mx w = (b, w1)"
  shows "data_store w1 = data_store w \<and> initialized w1 = initialized w
       \<and> trace w1 = trace w @ [ValidateBatch tid tc mn mx b]
       \<and> b = fst (validate_batch (data_store w) tid tc mn mx)"
  using assms unfolding run_validate_batch_def Let_def
  by (auto split: prod.splits)

lemma validate_and_commit_cases:
  assumes "validate_and_commit env tid sr tc mn mx w = (res, w')"
  shows "initialized w' = initialized w \<and>
    ((res = Inr ()
        \<and> data_store w' = set_validated_wallet_generation tid
                            (uint (SingletonRecord.generation sr)) (data_store w)
        \<and> (\<exists>evs. trace w' = trace w @ evs \<and> validated_commit tid sr (data_store w) evs))
     \<or> ((\<exists>e. res = Inl e) \<and> data_store w' = data_store w
        \<and> (\<exists>evs. trace w' = trace w @ evs \<and> no_write evs)))"
proof -
  obtain b w1 where r1: "run_validate_batch tid tc mn mx w = (b, w1)"
    by (cases "run_validate_batch tid tc mn mx w")
  note f1 = run_validate_batch_frame [OF r1]
  show ?thesis
  proof (cases b)
    case True
    with assms(1) r1 have "res = Inr ()"
      "w' = commit_generation tid sr (log_msg INFO ''Finished downloading and validating.'' w1)"
      by (simp_all add: validate_and_commit_def)
    with f1 True show ?thesis by (simp add: validated_commit_def)
  next
    case False
    let ?w2 = "log_msg WARNING ''Light validation failed. Validating all history.'' w1"
    show ?thesis
    proof (cases "dl_history env tid 1")
      case Nil
      with assms(1) r1 False have "res = Inl IndexError" "w' = ?w2"
        by (simp_all add: validate_and_commit_def)
      with f1 False show ?thesis by simp
    next
      case (Cons c rest)
      let ?w3 = "log_msg INFO ''Validated chain hash in downloaded datastore.'' ?w2"
      obtain b2 w4 where r2: "run_validate_batch tid rest 0 mx ?w3 = (b2, w4)"
        by (cases "run_validate_batch tid rest 0 mx ?w3")
      note f2 = run_validate_batch_frame [OF r2]
      show ?thesis
      proof (cases b2)
        case True
        with assms(1) r1 r2 False Cons have "res = Inr ()"
          "w' = commit_generation tid sr (log_msg INFO ''Finished downloading and validating.'' w4)"
          by (simp_all add: validate_and_commit_def)
        with f1 f2 False True Cons show ?thesis by (simp add: validated_commit_def)
      next
        case b2F: False
        with assms(1) r1 r2 False Cons have
          "res = Inl (RuntimeError ''Could not validate on-chain data.'')" "w' = w4"
          by (simp_all add: validate_and_commit_def)
        with f1 f2 False b2F Cons show ?thesis by simp
      qed
    qed
  qed
qed

lemma download_and_validate_failed:
  assumes "\<not> fst (download_data env (data_store w) sub (root sr))"
  shows "download_and_validate env sub sr old_root tc w =
    (Inl (RuntimeError ''Could not download the data.''),
     call (DownloadData (tree_id sub) (root sr))
       ((log_msg INFO ''Downloading and validating.'' w)
          \<lparr>data_store := (data_store w)
             \<lparr>roots := snd (download_data env (data_store w) sub (root sr))\<rparr>\<rparr>))"
  using assms
  by (cases "download_data env (data_store w) sub (root sr)")
     (simp add: download_and_validate_def Let_def)

lemma download_and_validate_ok:
  assumes "fst (download_data env (data_store w) sub (root sr))"
  shows "download_and_validate env sub sr old_root tc w =
    (let w3 = log_msg INFO ''Successfully downloaded data.''
                (call (DownloadData (tree_id sub) (root sr))
                  ((log_msg INFO ''Downloading and validating.'' w)
                     \<lparr>data_store := (data_store w)
                        \<lparr>roots := snd (download_data env (data_store w) sub (root sr))\<rparr>\<rparr>))
     in case get_tree_root (data_store w3) (tree_id sub) of
          Inl e \<Rightarrow> (Inl e, w3)
        | Inr r \<Rightarrow>
           (case node_hash r of
              None \<Rightarrow> (Inl (RuntimeError ''Can't find data on chain in our datastore.''), w3)
            | Some h \<Rightarrow>
               (case tc of
                  [] \<Rightarrow> (Inl IndexError, w3)
                | c # rest \<Rightarrow>
                    if h \<noteq> root c
                    then (Inl (RuntimeError ''Can't find data on chain in our datastore.''), w3)
                    else validate_and_commit env (tree_id sub) sr rest
                           ((case old_root of None \<Rightarrow> 0 | Some r0 \<Rightarrow> Root.generation r0) + 1)
                           (Root.generation r)
                           (log_msg INFO ''Validated chain hash in downloaded datastore.'' w3))))"
  using assms
  by (cases "download_data env (data_store w) sub (root sr)")
     (simp add: download_and_validate_def Let_def)

lemma download_and_validate_cases:
  assumes dv: "download_and_validate env sub sr old_root tc w = (res, w')"
  shows "initialized w' = initialized w \<and>
    (\<exists>evs. trace w' = trace w @ DownloadData (tree_id sub) (root sr) # evs \<and>
       ((res = Inr ()
          \<and> validated_wallet_generation (data_store w')
              = (validated_wallet_generation (data_store w))
                  (tree_id sub := uint (SingletonRecord.generation sr))
          \<and> validated_commit (tree_id sub) sr (data_store w') evs)
        \<or> ((\<exists>e. res = Inl e)
          \<and> validated_wallet_generation (data_store w') = validated_wallet_generation (data_store w)
          \<and> no_write evs)))"
proof (cases "fst (download_data env (data_store w) sub (root sr))")
  case False
  from dv [unfolded download_and_validate_failed [OF False]] show ?thesis
    by auto
next
  case True
  let ?ds1 = "(data_store w)\<lparr>roots := snd (download_data env (data_store w) sub (root sr))\<rparr>"
  let ?w3 = "log_msg INFO ''Successfully downloaded data.''
                (call (DownloadData (tree_id sub) (root sr))
                  ((log_msg INFO ''Downloading and validating.'' w)\<lparr>data_store := ?ds1\<rparr>))"
  have w3: "data_store ?w3 = ?ds1" "initialized ?w3 = initialized w"
    "trace ?w3 = trace w @ [DownloadData (tree_id sub) (root sr)]"
    by simp_all
  have stop: ?thesis if "\<exists>e. res = Inl e" "w' = ?w3"
    using that w3 by simp
  note eq = dv [unfolded download_and_validate_ok [OF True, of old_root tc] Let_def]
  show ?thesis
  proof (cases "get_tree_root (data_store ?w3) (tree_id sub)")
    case (Inl e)
    with eq have "\<exists>e. res = Inl e" "w' = ?w3" by auto
    then show ?thesis by (rule stop)
  next
    case (Inr r)
    show ?thesis
    proof (cases "node_hash r")
      case None
      with eq Inr have "\<exists>e. res = Inl e" "w' = ?w3" by auto
      then show ?thesis by (rule stop)
    next
      case (Some h)
      show ?thesis
      proof (cases tc)
        case Nil
        with eq Inr Some have "\<exists>e. res = Inl e" "w' = ?w3" by auto
        then show ?thesis by (rule stop)
      next
        case (Cons c rest)
        show ?thesis
        proof (cases "h = root c")
          case False
          with eq Inr Some Cons have "\<exists>e. res = Inl e" "w' = ?w3" by auto
          then show ?thesis by (rule stop)
        next
          case hc: True
          let ?w4 = "log_msg INFO ''Validated chain hash in downloaded datastore.'' ?w3"
          let ?mn = "(case old_root of None \<Rightarrow> 0 | Some r0 \<Rightarrow> Root.generation r0) + 1"
          from eq Inr Some Cons hc have
            vc: "validate_and_commit env (tree_id sub) sr rest ?mn (Root.generation r) ?w4 = (res, w')"
            by simp
          have w4: "data_store ?w4 = ?ds1" "initialized ?w4 = initialized w"
                   "trace ?w4 = trace w @ [DownloadData (tree_id sub) (root sr)]"
            by simp_all
          from validate_and_commit_cases [OF vc, unfolded w4]
          show ?thesis
            by (elim conjE disjE exE) simp_all
        qed
      qed
    qed
  qed
qed

lemma check_candidates_cases:
  assumes cc: "check_candidates env sub sr old_root tc w = (res, w')"
  shows "initialized w' = initialized w \<and>
    (\<exists>evs. trace w' = trace w @ evs \<and>
       ((res = Inr ()
          \<and> validated_wallet_generation (data_store w')
              = (validated_wallet_generation (data_store w))
                  (tree_id sub := uint (SingletonRecord.generation sr))
          \<and> ((evs = [SetValidatedWalletGeneration (tree_id sub)
                        (uint (SingletonRecord.generation sr))]
                \<and> fast_forward old_root tc = Inr True)
             \<or> (\<exists>evs'. evs = DownloadData (tree_id sub) (root sr) # evs'
                   \<and> validated_commit (tree_id sub) sr (data_store w') evs')))
        \<or> ((\<exists>e. res = Inl e)
          \<and> validated_wallet_generation (data_store w') = validated_wallet_generation (data_store w)
          \<and> no_write evs)))"
proof (cases "fast_forward old_root tc")
  case (Inl e)
  with cc have "res = Inl e" "w' = w" by (simp_all add: check_candidates_def)
  then show ?thesis by simp
next
  case (Inr b)
  show ?thesis
  proof (cases b)
    case True
    with cc Inr have "res = Inr ()"
      "w' = log_msg INFO ''Fetch data: fast-forwarded as all on-chain hashes are identical to our root hash.''
             (commit_generation (tree_id sub) sr w)"
      by (simp_all add: check_candidates_def)
    with Inr True show ?thesis by simp
  next
    case False
    show ?thesis
    proof (cases "trim old_root tc")
      case (Inl e)
      with cc Inr False have "res = Inl e" "w' = w" by (simp_all add: check_candidates_def)
      then show ?thesis by simp
    next
      case tr: (Inr trimmed)
      with cc Inr False have
        dv: "download_and_validate env sub sr old_root trimmed w = (res, w')"
        by (simp add: check_candidates_def)
      from download_and_validate_cases [OF dv]
      show ?thesis
        by (elim conjE disjE exE) simp_all
    qed
  qed
qed

lemmas model_defs =
  fetch_and_validate_def fetch_candidates_def check_candidates_def fast_forward_def trim_def
  download_and_validate_def validate_and_commit_def run_validate_batch_def commit_generation_def
  validate_batch_def get_last_tree_root_by_hash_def get_tree_root_def
  get_validated_wallet_generation_def set_validated_wallet_generation_def
  uint32_def log_msg_def call_def Let_def

lemmas example_defs =
  example_env_def example_world_def root_of_def rec_of_def example_subscription_def
  example_history_def example_roots_def scenario_store_def

section \<open>The claims on \<open>fetch_and_validate\<close>\<close>

text \<open>
  C1. Whatever a call of \<open>fetch_and_validate\<close> does, the validated generation of no tree
  decreases. Either the call writes no validated generation and leaves all of them as they
  were, or it returns normally, having reached the candidate list with a stored generation
  strictly below the latest record's, and the only write sets the subscribed tree's
  generation to the latest record's generation: as the single effect of a fast-forward
  whose check held, or as the last entry after the download and a light or full validation
  whose verdict was true. No run that raises contains a write.
\<close>

theorem validated_generation_monotonic:
  assumes fv: "fetch_and_validate env sub w = (res, w')"
  shows "(\<forall>t. validated_wallet_generation (data_store w) t
              \<le> validated_wallet_generation (data_store w') t) \<and>
    (\<exists>evs. trace w' = trace w @ evs \<and>
      ((no_write evs
          \<and> validated_wallet_generation (data_store w') = validated_wallet_generation (data_store w))
       \<or> (\<exists>sr old_root wcg tc.
             fetch_candidates env sub w = (Continue (sr, old_root, wcg, tc), w)
           \<and> res = Inr ()
           \<and> validated_wallet_generation (data_store w) (tree_id sub)
                < uint (SingletonRecord.generation sr)
           \<and> validated_wallet_generation (data_store w')
               = (validated_wallet_generation (data_store w))
                   (tree_id sub := uint (SingletonRecord.generation sr))
           \<and> ((evs = [SetValidatedWalletGeneration (tree_id sub)
                         (uint (SingletonRecord.generation sr))]
                  \<and> fast_forward old_root tc = Inr True)
              \<or> (\<exists>evs'. evs = DownloadData (tree_id sub) (root sr) # evs'
                    \<and> validated_commit (tree_id sub) sr (data_store w') evs')))))"
proof -
  obtain st w1 where fc: "fetch_candidates env sub w = (st, w1)"
    by (cases "fetch_candidates env sub w")
  note fr = fetch_candidates_frame [OF fc]
  show ?thesis
  proof (cases st)
    case Return
    with fv fc have "w' = w1" by (simp add: fetch_and_validate_def)
    with fr show ?thesis by simp
  next
    case (Raise e)
    with fv fc have "w' = w1" by (simp add: fetch_and_validate_def)
    with fr show ?thesis by simp
  next
    case (Continue x)
    obtain sr old_root wcg tc where x: "x = (sr, old_root, wcg, tc)"
      by (cases x) auto
    note fc' = fc [unfolded Continue x]
    note k = fetch_candidates_Continue [OF fc']
    from fv fc' have cc: "check_candidates env sub sr old_root tc w1 = (res, w')"
      by (simp add: fetch_and_validate_def)
    have w1: "w1 = w" using k by simp
    have lt: "validated_wallet_generation (data_store w) (tree_id sub)
                < uint (SingletonRecord.generation sr)" using k by simp
    from check_candidates_cases [OF cc, unfolded w1] obtain evs where
      evs: "trace w' = trace w @ evs"
      and d: "(res = Inr ()
          \<and> validated_wallet_generation (data_store w')
              = (validated_wallet_generation (data_store w))
                  (tree_id sub := uint (SingletonRecord.generation sr))
          \<and> ((evs = [SetValidatedWalletGeneration (tree_id sub)
                        (uint (SingletonRecord.generation sr))]
                \<and> fast_forward old_root tc = Inr True)
             \<or> (\<exists>evs'. evs = DownloadData (tree_id sub) (root sr) # evs'
                   \<and> validated_commit (tree_id sub) sr (data_store w') evs')))
        \<or> ((\<exists>e. res = Inl e)
          \<and> validated_wallet_generation (data_store w') = validated_wallet_generation (data_store w)
          \<and> no_write evs)"
      by blast
    from d show ?thesis
    proof (rule disjE)
      assume A: "res = Inr ()
          \<and> validated_wallet_generation (data_store w')
              = (validated_wallet_generation (data_store w))
                  (tree_id sub := uint (SingletonRecord.generation sr))
          \<and> ((evs = [SetValidatedWalletGeneration (tree_id sub)
                        (uint (SingletonRecord.generation sr))]
                \<and> fast_forward old_root tc = Inr True)
             \<or> (\<exists>evs'. evs = DownloadData (tree_id sub) (root sr) # evs'
                   \<and> validated_commit (tree_id sub) sr (data_store w') evs'))"
      then have "\<forall>t. validated_wallet_generation (data_store w) t
              \<le> validated_wallet_generation (data_store w') t"
        using lt by simp
      with A evs lt fc' [unfolded w1] show ?thesis by blast
    next
      assume "(\<exists>e. res = Inl e)
          \<and> validated_wallet_generation (data_store w') = validated_wallet_generation (data_store w)
          \<and> no_write evs"
      with evs show ?thesis by auto
    qed
  qed
qed

theorem validated_generation_monotonic_witness:
  "fst (fetch_and_validate (example_env (Some (rec_of 3 3)) example_history True example_roots)
          (example_subscription HISTORY) (example_world [] 0)) = Inr ()
   \<and> validated_wallet_generation (data_store (snd
        (fetch_and_validate (example_env (Some (rec_of 3 3)) example_history True example_roots)
          (example_subscription HISTORY) (example_world [] 0)))) 7 = 3
   \<and> (\<forall>t. validated_wallet_generation (data_store (example_world [] 0)) t
          \<le> validated_wallet_generation (data_store (snd
        (fetch_and_validate (example_env (Some (rec_of 3 3)) example_history True example_roots)
          (example_subscription HISTORY) (example_world [] 0)))) t)"
proof -
  let ?F = "fetch_and_validate (example_env (Some (rec_of 3 3)) example_history True example_roots)
          (example_subscription HISTORY) (example_world [] 0)"
  have h: "?F = (fst ?F, snd ?F)" by simp
  have a: "fst ?F = Inr ()" by (simp add: model_defs example_defs)
  have b: "validated_wallet_generation (data_store (snd ?F)) 7 = 3"
    by (simp add: model_defs example_defs)
  from validated_generation_monotonic [OF h] a b show ?thesis by blast
qed

section \<open>The claim on \<open>validate_batch\<close>\<close>

text \<open>
  C2, as stated, at hashes 1, 2, 3: with the local history at generations 1, 2, 3 and the
  candidates \<open>[B, C]\<close>, \<open>min_generation = 2\<close> and \<open>max_generation = 3\<close>, the verdict is
  false: \<open>B\<close> narrows the window to generation 2, and \<open>C\<close> sits at generation 3.
\<close>

theorem validate_batch_oldest_first_fails:
  "\<not> fst (validate_batch (scenario_store 7 1 2 3) 7 [rec_of 2 2, rec_of 3 3] 2 3)"
  by (simp add: validate_batch_def get_last_tree_root_by_hash_def scenario_store_def rec_of_def)

text \<open>
  C2, amended. With the candidates newest first, \<open>[C, B]\<close>, the verdict is true for
  \<open>min_generation = 2\<close> and false for \<open>min_generation = 3\<close> (the local generation 2 of
  \<open>B\<close> is below it); with the candidates \<open>[B, C]\<close> it is false for both.
\<close>

theorem validate_batch_window:
  assumes "B \<noteq> C"
  shows "fst (validate_batch (scenario_store tid A B C) tid [rec_of C g3, rec_of B g2] 2 3)
       \<and> \<not> fst (validate_batch (scenario_store tid A B C) tid [rec_of C g3, rec_of B g2] 3 3)
       \<and> \<not> fst (validate_batch (scenario_store tid A B C) tid [rec_of B g2, rec_of C g3] 2 3)
       \<and> \<not> fst (validate_batch (scenario_store tid A B C) tid [rec_of B g2, rec_of C g3] 3 3)"
  using assms
  by (auto simp add: validate_batch_def get_last_tree_root_by_hash_def scenario_store_def rec_of_def)

theorem validate_batch_window_witness:
  "(2 :: bytes32) \<noteq> 3
   \<and> fst (validate_batch (scenario_store 7 1 2 3) 7 [rec_of 3 3, rec_of 2 2] 2 3)
   \<and> \<not> fst (validate_batch (scenario_store 7 1 2 3) 7 [rec_of 3 3, rec_of 2 2] 3 3)"
proof -
  have h: "(2 :: bytes32) \<noteq> 3" by simp
  from validate_batch_window [OF h, of 7 1 3 2] h show ?thesis by blast
qed

section \<open>The trimming loop\<close>

lemma remdups_all_same:
  assumes "xs \<noteq> []" and "\<forall>x\<in>set xs. x = a"
  shows "length (remdups xs) = 1"
proof -
  from assms have "set xs = {a}" by (cases xs) auto
  then have "card (set xs) = 1" by simp
  then show ?thesis by (simp add: length_remdups_card_conv)
qed

lemma fast_forward_False_differs:
  assumes "fast_forward (Some r) tc \<noteq> Inr True" and "node_hash r = Some h" and "tc \<noteq> []"
  shows "\<exists>c\<in>set tc. root c \<noteq> h"
proof (rule ccontr)
  assume "\<not> (\<exists>c\<in>set tc. root c \<noteq> h)"
  then have same: "\<forall>c\<in>set tc. root c = h" by simp
  then have "\<forall>x\<in>set (map root tc). x = h" by simp
  moreover have "map root tc \<noteq> []" using assms(3) by simp
  ultimately have "length (remdups (map root tc)) = 1"
    by (rule remdups_all_same [rotated])
  moreover obtain c cs where "tc = c # cs" using assms(3) by (cases tc) auto
  ultimately have "fast_forward (Some r) tc = Inr True"
    using same assms(2) by (simp add: fast_forward_def)
  with assms(1) show False by simp
qed

lemma trim_loop_keeps_differing:
  assumes "\<exists>c\<in>set tc. root c \<noteq> h"
  shows "\<exists>trimmed dropped. trim_loop tc h = Inr trimmed \<and> tc = trimmed @ dropped
           \<and> trimmed \<noteq> [] \<and> root (last trimmed) \<noteq> h \<and> (\<forall>c\<in>set dropped. root c = h)"
  using assms
proof (induction tc h rule: trim_loop.induct)
  case (1 tc h)
  from "1.prems" have ne: "tc \<noteq> []" by auto
  show ?case
  proof (cases "root (last tc) = h")
    case False
    with ne have "trim_loop tc h = Inr tc" by (simp add: trim_loop.simps [of tc])
    with ne False show ?thesis by simp
  next
    case True
    have tc: "tc = butlast tc @ [last tc]" using ne by simp
    from "1.prems" obtain c where c: "c \<in> set tc" "root c \<noteq> h" by blast
    with True have "c \<noteq> last tc" by auto
    with c(1) tc have "c \<in> set (butlast tc)"
      by (metis Un_iff empty_iff insert_iff list.set(1) list.set(2) set_append)
    with c(2) have "\<exists>c\<in>set (butlast tc). root c \<noteq> h" by blast
    from "1.IH" [OF ne True this] obtain trimmed dropped where
      t: "trim_loop (butlast tc) h = Inr trimmed" "butlast tc = trimmed @ dropped"
         "trimmed \<noteq> []" "root (last trimmed) \<noteq> h" "\<forall>c\<in>set dropped. root c = h"
      by blast
    have "trim_loop tc h = Inr trimmed"
      using ne True t(1) by (simp add: trim_loop.simps [of tc])
    moreover have "tc = trimmed @ (dropped @ [last tc])"
      using tc t(2) by (metis append_assoc)
    moreover have "\<forall>c\<in>set (dropped @ [last tc]). root c = h"
      using t(5) True by simp
    ultimately show ?thesis using t(3,4) by blast
  qed
qed

text \<open>
  C9. When the candidate list is not empty and the fast-forward is not taken, trimming
  succeeds and leaves a non-empty list, a prefix of the candidates from which only
  trailing records with the old root's hash were dropped; with an old root that has a
  hash, some candidate differs from it and the last record kept is such a one. The run
  goes on to the download with that list, so its first and last elements exist.
\<close>

theorem trim_leaves_a_candidate:
  assumes "tc \<noteq> []" and "fast_forward old_root tc \<noteq> Inr True"
  shows "\<exists>trimmed dropped.
           trim old_root tc = Inr trimmed \<and> trimmed \<noteq> [] \<and> tc = trimmed @ dropped
         \<and> (\<forall>r h. old_root = Some r \<and> node_hash r = Some h \<longrightarrow>
               (\<exists>c\<in>set tc. root c \<noteq> h) \<and> root (last trimmed) \<noteq> h
               \<and> (\<forall>c\<in>set dropped. root c = h))
         \<and> check_candidates env sub sr old_root tc w
             = download_and_validate env sub sr old_root trimmed w"
proof -
  have ff: "fast_forward old_root tc = Inr False"
    using assms by (auto simp add: fast_forward_def split: option.splits list.splits)
  show ?thesis
  proof (cases "\<exists>r h. old_root = Some r \<and> node_hash r = Some h")
    case False
    then have "trim old_root tc = Inr tc"
      by (auto simp add: trim_def split: option.splits)
    with False ff assms(1) show ?thesis
      by (auto simp add: check_candidates_def)
  next
    case True
    then obtain r h where rh: "old_root = Some r" "node_hash r = Some h" by blast
    from fast_forward_False_differs [OF assms(2) [unfolded rh(1)] rh(2) assms(1)]
    have d: "\<exists>c\<in>set tc. root c \<noteq> h" .
    from trim_loop_keeps_differing [OF d] obtain trimmed dropped where
      t: "trim_loop tc h = Inr trimmed" "tc = trimmed @ dropped"
         "trimmed \<noteq> []" "root (last trimmed) \<noteq> h" "\<forall>c\<in>set dropped. root c = h"
      by blast
    have tr: "trim old_root tc = Inr trimmed" using rh t(1) by (simp add: trim_def)
    have "check_candidates env sub sr old_root tc w
             = download_and_validate env sub sr old_root trimmed w"
      using ff tr by (simp add: check_candidates_def)
    with tr t d rh show ?thesis by auto
  qed
qed

theorem trim_leaves_a_candidate_witness:
  "example_history \<noteq> [] \<and> fast_forward (Some (root_of 1 1)) example_history \<noteq> Inr True
   \<and> trim (Some (root_of 1 1)) example_history = Inr [rec_of 3 3, rec_of 2 2]
   \<and> (\<exists>trimmed dropped. trim (Some (root_of 1 1)) example_history = Inr trimmed
         \<and> trimmed \<noteq> [] \<and> example_history = trimmed @ dropped)"
proof -
  have h1: "example_history \<noteq> []" by (simp add: example_history_def)
  have h2: "fast_forward (Some (root_of 1 1)) example_history \<noteq> Inr True"
    by (simp add: fast_forward_def example_history_def root_of_def rec_of_def)
  have ev: "trim (Some (root_of 1 1)) example_history = Inr [rec_of 3 3, rec_of 2 2]"
    by (simp add: trim_def example_history_def root_of_def rec_of_def
          trim_loop.simps [of "[a, b, c]" for a b c] trim_loop.simps [of "[a, b]" for a b])
  from trim_leaves_a_candidate [OF h1 h2] h1 h2 ev show ?thesis by blast
qed

section \<open>Fast-forward, rejection and the no-op exits\<close>

lemma fetch_and_validate_Continue:
  assumes "fetch_candidates env sub w = (Continue (sr, old_root, wcg, tc), w1)"
  shows "fetch_and_validate env sub w = check_candidates env sub sr old_root tc w"
  using assms fetch_candidates_Continue [OF assms]
  by (simp add: fetch_and_validate_def)

text \<open>
  C4. When the candidate list is reached, the local root exists with a hash \<open>H\<close>, the
  first candidate has the root hash \<open>H\<close> and every candidate has the root hash of the
  first, \<open>fetch_and_validate\<close> returns normally; the store differs from the one before
  only in the validated generation of the tree, now the latest record's generation, and
  the write is the only new entry of the trace: no download, no \<open>validate_batch\<close>.
\<close>

theorem fast_forward_skips_download:
  assumes fc: "fetch_candidates env sub w = (Continue (sr, old_root, wcg, tc), w1)"
      and gr: "get_tree_root (data_store w) (tree_id sub) = Inr r"
      and nh: "node_hash r = Some H"
      and ne: "tc \<noteq> []"
      and hd: "root (hd tc) = H"
      and same: "\<forall>c\<in>set tc. root c = root (hd tc)"
  shows "\<exists>w'. fetch_and_validate env sub w = (Inr (), w')
       \<and> dl_latest_singleton env (tree_id sub) = Some sr
       \<and> data_store w' = set_validated_wallet_generation (tree_id sub)
                           (uint (SingletonRecord.generation sr)) (data_store w)
       \<and> trace w' = trace w @ [SetValidatedWalletGeneration (tree_id sub)
                                  (uint (SingletonRecord.generation sr))]"
proof -
  note raw = fetch_candidates_Continue_raw [OF fc]
  from raw gr have old: "old_root = Some r" by simp
  from same hd have "\<forall>x\<in>set (map root tc). x = H" by simp
  moreover have "map root tc \<noteq> []" using ne by simp
  ultimately have one: "length (remdups (map root tc)) = 1"
    by (rule remdups_all_same [rotated])
  obtain c cs where tc: "tc = c # cs" using ne by (cases tc) auto
  have ff: "fast_forward old_root tc = Inr True"
    using old nh hd one tc by (simp add: fast_forward_def)
  have "fetch_and_validate env sub w =
          (Inr (), log_msg INFO ''Fetch data: fast-forwarded as all on-chain hashes are identical to our root hash.''
             (commit_generation (tree_id sub) sr w))"
    using ff by (simp add: fetch_and_validate_Continue [OF fc] check_candidates_def)
  with raw show ?thesis by simp
qed

theorem fast_forward_skips_download_witness:
  "fetch_candidates (example_env (Some (rec_of 5 2)) [] True []) (example_subscription LATEST)
      (example_world [root_of 5 1] 1)
     = (Continue (rec_of 5 2, Some (root_of 5 1), 1, [rec_of 5 2]), example_world [root_of 5 1] 1)
   \<and> get_tree_root (data_store (example_world [root_of 5 1] 1)) (tree_id (example_subscription LATEST))
       = Inr (root_of 5 1)
   \<and> node_hash (root_of 5 1) = Some 5
   \<and> (\<exists>w'. fetch_and_validate (example_env (Some (rec_of 5 2)) [] True [])
               (example_subscription LATEST) (example_world [root_of 5 1] 1) = (Inr (), w')
          \<and> trace w' = trace (example_world [root_of 5 1] 1) @
               [SetValidatedWalletGeneration (tree_id (example_subscription LATEST))
                  (uint (SingletonRecord.generation (rec_of 5 2)))])"
proof -
  have fc: "fetch_candidates (example_env (Some (rec_of 5 2)) [] True []) (example_subscription LATEST)
      (example_world [root_of 5 1] 1)
     = (Continue (rec_of 5 2, Some (root_of 5 1), 1, [rec_of 5 2]), example_world [root_of 5 1] 1)"
    by (simp add: model_defs example_defs)
  have gr: "get_tree_root (data_store (example_world [root_of 5 1] 1))
              (tree_id (example_subscription LATEST)) = Inr (root_of 5 1)"
    by (simp add: model_defs example_defs)
  have nh: "node_hash (root_of 5 1) = Some 5" by (simp add: root_of_def)
  have ne: "[rec_of 5 2] \<noteq> []" by simp
  have hd: "root (hd [rec_of 5 2]) = 5" by (simp add: rec_of_def)
  have same: "\<forall>c\<in>set [rec_of 5 2]. root c = root (hd [rec_of 5 2])" by simp
  from fast_forward_skips_download [OF fc gr nh ne hd same] fc gr nh
  show ?thesis by blast
qed

text \<open>
  C3. When the run reaches the download with the trimmed candidate list, and the
  downloader returns false, or returns true and the local root then read has a hash
  other than the root hash of the first remaining candidate, \<open>fetch_and_validate\<close> raises
  a \<^verbatim>\<open>RuntimeError\<close> (``Could not download the data.'' in the first case, ``Can't find
  data on chain in our datastore.'' in the second); the validated generation of every
  tree is as before and the download is the only new entry of the trace.
\<close>

theorem mismatch_is_rejected:
  assumes fc: "fetch_candidates env sub w = (Continue (sr, old_root, wcg, tc), w1)"
      and ff: "fast_forward old_root tc = Inr False"
      and tr: "trim old_root tc = Inr trimmed"
      and dl: "download_data env (data_store w) sub (root sr) = (ok, new_roots)"
      and bad: "\<not> ok \<or> (\<exists>r c rest.
                  get_tree_root ((data_store w)\<lparr>roots := new_roots\<rparr>) (tree_id sub) = Inr r
                  \<and> trimmed = c # rest \<and> node_hash r \<noteq> Some (root c))"
  shows "\<exists>w'. fetch_and_validate env sub w =
           (Inl (RuntimeError (if ok then ''Can't find data on chain in our datastore.''
                               else ''Could not download the data.'')), w')
       \<and> validated_wallet_generation (data_store w') = validated_wallet_generation (data_store w)
       \<and> trace w' = trace w @ [DownloadData (tree_id sub) (root sr)]"
proof -
  have eq: "fetch_and_validate env sub w = download_and_validate env sub sr old_root trimmed w"
    using ff tr by (simp add: fetch_and_validate_Continue [OF fc] check_candidates_def)
  show ?thesis
  proof (cases ok)
    case False
    with dl have "\<not> fst (download_data env (data_store w) sub (root sr))" by simp
    from download_and_validate_failed [OF this, of old_root trimmed] False dl
    show ?thesis by (simp add: eq)
  next
    case True
    with bad obtain r c rest where
      b: "get_tree_root ((data_store w)\<lparr>roots := new_roots\<rparr>) (tree_id sub) = Inr r"
         "trimmed = c # rest" "node_hash r \<noteq> Some (root c)"
      by blast
    from True dl have "fst (download_data env (data_store w) sub (root sr))" by simp
    from download_and_validate_ok [OF this, of old_root trimmed] True dl b
    show ?thesis by (cases "node_hash r") (simp_all add: eq Let_def)
  qed
qed

theorem mismatch_is_rejected_witness:
  "fast_forward None example_history = Inr False
   \<and> trim None example_history = Inr example_history
   \<and> fst (fetch_and_validate
        (example_env (Some (rec_of 3 3)) example_history True [root_of 1 1, root_of 2 2])
        (example_subscription HISTORY) (example_world [] 0))
       = Inl (RuntimeError ''Can't find data on chain in our datastore.'')
   \<and> validated_wallet_generation (data_store (snd (fetch_and_validate
        (example_env (Some (rec_of 3 3)) example_history True [root_of 1 1, root_of 2 2])
        (example_subscription HISTORY) (example_world [] 0))))
       = validated_wallet_generation (data_store (example_world [] 0))"
proof -
  let ?E = "example_env (Some (rec_of 3 3)) example_history True [root_of 1 1, root_of 2 2]"
  let ?S = "example_subscription HISTORY"
  let ?W = "example_world [] 0"
  let ?new = "(roots (data_store ?W))(tree_id ?S := [root_of 1 1, root_of 2 2])"
  have fc: "fetch_candidates ?E ?S ?W = (Continue (rec_of 3 3, None, 0, example_history), ?W)"
    by (simp add: model_defs example_defs)
  have ff: "fast_forward None example_history = Inr False" by (simp add: fast_forward_def)
  have tr: "trim None example_history = Inr example_history" by (simp add: trim_def)
  have dl: "download_data ?E (data_store ?W) ?S (root (rec_of 3 3)) = (True, ?new)"
    by (simp add: example_env_def)
  have bad: "\<not> True \<or> (\<exists>r c rest.
                  get_tree_root ((data_store ?W)\<lparr>roots := ?new\<rparr>) (tree_id ?S) = Inr r
                  \<and> example_history = c # rest \<and> node_hash r \<noteq> Some (root c))"
    by (simp add: get_tree_root_def example_defs)
  from mismatch_is_rejected [OF fc ff tr dl bad] ff tr show ?thesis by auto
qed

section \<open>The no-op exits\<close>

lemma nothing_new_Return:
  assumes "nothing_new env (tree_id sub) (data_store w)"
  shows "fst (fetch_candidates env sub w) = Return"
proof (cases "dl_latest_singleton env (tree_id sub)")
  case None
  then show ?thesis by (simp add: fetch_candidates_def Let_def)
next
  case (Some sr)
  show ?thesis
  proof (cases "SingletonRecord.generation sr = 0")
    case True
    with Some show ?thesis by (simp add: fetch_candidates_def Let_def)
  next
    case False
    with assms Some have
      eq: "validated_wallet_generation (data_store w) (tree_id sub)
             = uint (SingletonRecord.generation sr)"
      by (simp add: nothing_new_def)
    with Some False show ?thesis
      by (simp add: fetch_candidates_def Let_def get_validated_wallet_generation_def uint32_uint)
  qed
qed

lemma nothing_new_noop:
  assumes "nothing_new env (tree_id sub) (data_store w)"
  shows "\<exists>w'. fetch_and_validate env sub w = (Inr (), w')
           \<and> data_store w' = data_store w \<and> trace w' = trace w
           \<and> initialized w' = initialized w"
proof -
  obtain st w1 where fc: "fetch_candidates env sub w = (st, w1)"
    by (cases "fetch_candidates env sub w")
  with nothing_new_Return [OF assms] have "st = Return" by simp
  with fc have "fetch_and_validate env sub w = (Inr (), w1)"
    by (simp add: fetch_and_validate_def)
  with fetch_candidates_frame [OF fc] show ?thesis by simp
qed

lemma success_nothing_new:
  assumes fv: "fetch_and_validate env sub w = (Inr (), w1)"
  shows "nothing_new env (tree_id sub) (data_store w1)"
proof -
  obtain st w0 where fc: "fetch_candidates env sub w = (st, w0)"
    by (cases "fetch_candidates env sub w")
  show ?thesis
  proof (cases st)
    case Return
    with fv fc have w1: "w1 = w0" by (simp add: fetch_and_validate_def)
    have ds: "data_store w0 = data_store w" using fetch_candidates_frame [OF fc] by simp
    have "nothing_new env (tree_id sub) (data_store w)"
    proof (rule ccontr)
      assume n: "\<not> nothing_new env (tree_id sub) (data_store w)"
      then obtain sr where sr: "dl_latest_singleton env (tree_id sub) = Some sr"
        "SingletonRecord.generation sr \<noteq> 0"
        "uint (SingletonRecord.generation sr)
           \<noteq> validated_wallet_generation (data_store w) (tree_id sub)"
        by (auto simp add: nothing_new_def split: option.splits)
      have ne: "g \<noteq> SingletonRecord.generation sr"
        if "uint32 (validated_wallet_generation (data_store w) (tree_id sub)) = Inr g" for g
        using uint32_Inr_uint [OF that] sr(3) by auto
      from fc Return sr ne show False
        by (auto simp add: fetch_candidates_def Let_def get_validated_wallet_generation_def
              split: if_splits sum.splits DownloadMode.splits)
    qed
    with w1 ds show ?thesis by simp
  next
    case (Raise e)
    with fv fc show ?thesis by (simp add: fetch_and_validate_def)
  next
    case (Continue x)
    obtain sr old_root wcg tc where x: "x = (sr, old_root, wcg, tc)"
      by (cases x) auto
    note fc' = fc [unfolded Continue x]
    note k = fetch_candidates_Continue [OF fc']
    from fv have cc: "check_candidates env sub sr old_root tc w = (Inr (), w1)"
      by (simp add: fetch_and_validate_Continue [OF fc'])
    from check_candidates_cases [OF cc]
    have "validated_wallet_generation (data_store w1)
              = (validated_wallet_generation (data_store w))
                  (tree_id sub := uint (SingletonRecord.generation sr))"
      by auto
    with k show ?thesis by (simp add: nothing_new_def)
  qed
qed

text \<open>
  C5, as stated, at a concrete input: the ledger holds generation 3, nothing is validated
  yet and the downloader fails. The first run raises after the download; the second run,
  with the ledger unchanged, calls the downloader again.
\<close>

theorem second_run_downloads_again:
  "fst (fetch_and_validate (example_env (Some (rec_of 3 3)) example_history False [])
          (example_subscription HISTORY) (example_world [] 0))
     = Inl (RuntimeError ''Could not download the data.'')
   \<and> trace (snd (fetch_and_validate (example_env (Some (rec_of 3 3)) example_history False [])
          (example_subscription HISTORY)
          (snd (fetch_and_validate (example_env (Some (rec_of 3 3)) example_history False [])
                  (example_subscription HISTORY) (example_world [] 0)))))
     = [DownloadData 7 3, DownloadData 7 3]"
  by (simp add: model_defs example_defs)

text \<open>
  C5, amended. When the ledger has no record for the tree, or a record of generation 0,
  or one whose generation is the stored validated generation, \<open>fetch_and_validate\<close>
  returns normally with the store and the trace as they were: no download, no write. And
  after a run that returned normally, a second run against the same ledger returns
  normally and changes neither the store nor the trace.
\<close>

theorem no_op_when_nothing_new:
  "(nothing_new env (tree_id sub) (data_store w) \<longrightarrow>
      (\<exists>w'. fetch_and_validate env sub w = (Inr (), w')
           \<and> data_store w' = data_store w \<and> trace w' = trace w))
   \<and> (\<forall>w1. fetch_and_validate env sub w = (Inr (), w1) \<longrightarrow>
      (\<exists>w2. fetch_and_validate env sub w1 = (Inr (), w2)
           \<and> data_store w2 = data_store w1 \<and> trace w2 = trace w1))"
proof (intro conjI impI allI)
  assume "nothing_new env (tree_id sub) (data_store w)"
  from nothing_new_noop [OF this]
  show "\<exists>w'. fetch_and_validate env sub w = (Inr (), w')
           \<and> data_store w' = data_store w \<and> trace w' = trace w"
    by blast
next
  fix w1
  assume "fetch_and_validate env sub w = (Inr (), w1)"
  from nothing_new_noop [OF success_nothing_new [OF this]]
  show "\<exists>w2. fetch_and_validate env sub w1 = (Inr (), w2)
           \<and> data_store w2 = data_store w1 \<and> trace w2 = trace w1"
    by blast
qed

theorem no_op_when_nothing_new_witness:
  "nothing_new (example_env None [] True []) (tree_id (example_subscription LATEST))
      (data_store (example_world [] 0))
   \<and> (\<exists>w'. fetch_and_validate (example_env None [] True []) (example_subscription LATEST)
               (example_world [] 0) = (Inr (), w')
         \<and> data_store w' = data_store (example_world [] 0)
         \<and> trace w' = trace (example_world [] 0))
   \<and> fst (fetch_and_validate (example_env (Some (rec_of 3 3)) example_history True example_roots)
             (example_subscription HISTORY) (example_world [] 0)) = Inr ()
   \<and> (\<exists>w2. fetch_and_validate (example_env (Some (rec_of 3 3)) example_history True example_roots)
               (example_subscription HISTORY)
               (snd (fetch_and_validate
                      (example_env (Some (rec_of 3 3)) example_history True example_roots)
                      (example_subscription HISTORY) (example_world [] 0))) = (Inr (), w2)
         \<and> trace w2 = trace (snd (fetch_and_validate
                      (example_env (Some (rec_of 3 3)) example_history True example_roots)
                      (example_subscription HISTORY) (example_world [] 0))))"
proof -
  let ?E = "example_env (Some (rec_of 3 3)) example_history True example_roots"
  let ?S = "example_subscription HISTORY"
  let ?W = "example_world [] 0"
  have n: "nothing_new (example_env None [] True []) (tree_id (example_subscription LATEST))
             (data_store ?W)"
    by (simp add: nothing_new_def example_env_def)
  have a: "fst (fetch_and_validate ?E ?S ?W) = Inr ()"
    by (simp add: model_defs example_defs)
  then have r: "fetch_and_validate ?E ?S ?W = (Inr (), snd (fetch_and_validate ?E ?S ?W))"
    by (metis prod.collapse)
  from no_op_when_nothing_new [of "example_env None [] True []" "example_subscription LATEST" ?W]
       no_op_when_nothing_new [of ?E ?S ?W] n a r
  show ?thesis by blast
qed

text \<open>
  C10, as stated, at a concrete input: the latest record has generation 0 and the stored
  validated generation is 1. The ledger is behind the checkpoint, and the call returns
  normally by the exit for generation 0, before the assertion is reached.
\<close>

theorem generation_zero_returns_before_assertion:
  "uint (SingletonRecord.generation (rec_of 3 0))
     < validated_wallet_generation (data_store (example_world [] 1))
         (tree_id (example_subscription LATEST))
   \<and> fetch_and_validate (example_env (Some (rec_of 3 0)) [] True [])
        (example_subscription LATEST) (example_world [] 1)
     = (Inr (), log_msg INFO ''Fetch data: No data on chain.'' (example_world [] 1))"
  by (simp add: fetch_and_validate_def fetch_candidates_def Let_def example_defs)

text \<open>
  C10, amended. When the latest record has a generation other than 0 that is strictly
  less than the stored validated generation of the tree, \<open>fetch_and_validate\<close> fails with
  an \<^verbatim>\<open>AssertionError\<close> and leaves the state, trace and log included, as it was.
\<close>

theorem ledger_behind_checkpoint_asserts:
  assumes "dl_latest_singleton env (tree_id sub) = Some sr"
      and "SingletonRecord.generation sr \<noteq> 0"
      and "uint (SingletonRecord.generation sr)
             < validated_wallet_generation (data_store w) (tree_id sub)"
  shows "fetch_and_validate env sub w = (Inl AssertionError, w)"
  using assms
  by (simp add: fetch_and_validate_def fetch_candidates_def Let_def
        get_validated_wallet_generation_def)

theorem ledger_behind_checkpoint_asserts_witness:
  "dl_latest_singleton (example_env (Some (rec_of 3 2)) [] True [])
      (tree_id (example_subscription LATEST)) = Some (rec_of 3 2)
   \<and> SingletonRecord.generation (rec_of 3 2) \<noteq> 0
   \<and> uint (SingletonRecord.generation (rec_of 3 2))
       < validated_wallet_generation (data_store (example_world [] 5))
           (tree_id (example_subscription LATEST))
   \<and> fetch_and_validate (example_env (Some (rec_of 3 2)) [] True [])
        (example_subscription LATEST) (example_world [] 5)
       = (Inl AssertionError, example_world [] 5)"
proof -
  have h1: "dl_latest_singleton (example_env (Some (rec_of 3 2)) [] True [])
      (tree_id (example_subscription LATEST)) = Some (rec_of 3 2)"
    by (simp add: example_env_def)
  have h2: "SingletonRecord.generation (rec_of 3 2) \<noteq> 0" by (simp add: rec_of_def)
  have h3: "uint (SingletonRecord.generation (rec_of 3 2))
       < validated_wallet_generation (data_store (example_world [] 5))
           (tree_id (example_subscription LATEST))"
    by (simp add: rec_of_def example_world_def)
  from ledger_behind_checkpoint_asserts [OF h1 h2 h3] h1 h2 h3 show ?thesis by blast
qed

section \<open>The subscription registry\<close>

lemma get_subscriptions_subscribe:
  "get_subscriptions (subscribe tid m i p w) =
     (if tid \<in> tree_id ` set (get_subscriptions w) then get_subscriptions w
      else get_subscriptions w @ [\<lparr>tree_id = tid, mode = m, ip = i, port = p\<rparr>])"
  by (simp add: subscribe_def subscribe_present_def subscribe_track_def subscribe_record_def
        get_subscriptions_def store_subscribe_def Let_def)

lemma get_subscriptions_unsubscribe:
  "get_subscriptions (unsubscribe tid w) = filter (\<lambda>s. tree_id s \<noteq> tid) (get_subscriptions w)"
proof (cases "tid \<in> tree_id ` set (get_subscriptions w)")
  case True
  then show ?thesis
    by (simp add: unsubscribe_def get_subscriptions_def store_unsubscribe_def Let_def)
next
  case False
  then have "filter (\<lambda>s. tree_id s \<noteq> tid) (get_subscriptions w) = get_subscriptions w"
    by (auto simp add: filter_id_conv)
  with False show ?thesis by (simp add: unsubscribe_def Let_def)
qed

text \<open>
  One call at a time. Subscribing to a tree that has a subscription leaves the whole state
  as it was (no new record, no call to the wallet); subscribing to a tree that has none
  appends one record. Unsubscribing from a tree that has no subscription leaves the state
  as it was; after an unsubscribe the tree has no record, and the list is empty when it
  held records of that tree only. Calls that do not overlap keep the tree ids of the list
  distinct.
\<close>

lemma registry_is_idempotent:
  "(tid \<in> tree_id ` set (get_subscriptions w) \<longrightarrow> subscribe tid m i p w = w)
   \<and> (tid \<notin> tree_id ` set (get_subscriptions w) \<longrightarrow>
        get_subscriptions (subscribe tid m i p w)
          = get_subscriptions w @ [\<lparr>tree_id = tid, mode = m, ip = i, port = p\<rparr>]
        \<and> trace (subscribe tid m i p w)
          = trace w @ [DlTrackNew tid,
                       StoreSubscribe \<lparr>tree_id = tid, mode = m, ip = i, port = p\<rparr>])
   \<and> (tid \<notin> tree_id ` set (get_subscriptions w) \<longrightarrow> unsubscribe tid w = w)
   \<and> tid \<notin> tree_id ` set (get_subscriptions (unsubscribe tid w))
   \<and> (tree_id ` set (get_subscriptions w) \<subseteq> {tid} \<longrightarrow>
        get_subscriptions (unsubscribe tid w) = [])
   \<and> (distinct (map tree_id (get_subscriptions w)) \<longrightarrow>
        distinct (map tree_id (get_subscriptions (subscribe tid m i p w)))
        \<and> distinct (map tree_id (get_subscriptions (unsubscribe tid w))))"
proof (intro conjI impI)
  assume "tid \<in> tree_id ` set (get_subscriptions w)"
  then show "subscribe tid m i p w = w"
    by (simp add: subscribe_def subscribe_present_def Let_def)
next
  assume "tid \<notin> tree_id ` set (get_subscriptions w)"
  then show "get_subscriptions (subscribe tid m i p w)
          = get_subscriptions w @ [\<lparr>tree_id = tid, mode = m, ip = i, port = p\<rparr>]"
    by (simp add: get_subscriptions_subscribe)
next
  assume "tid \<notin> tree_id ` set (get_subscriptions w)"
  then show "trace (subscribe tid m i p w)
          = trace w @ [DlTrackNew tid,
                       StoreSubscribe \<lparr>tree_id = tid, mode = m, ip = i, port = p\<rparr>]"
    by (simp add: subscribe_def subscribe_present_def subscribe_track_def subscribe_record_def
          Let_def)
next
  assume "tid \<notin> tree_id ` set (get_subscriptions w)"
  then show "unsubscribe tid w = w" by (simp add: unsubscribe_def Let_def)
next
  show "tid \<notin> tree_id ` set (get_subscriptions (unsubscribe tid w))"
    by (auto simp add: get_subscriptions_unsubscribe)
next
  assume "tree_id ` set (get_subscriptions w) \<subseteq> {tid}"
  then show "get_subscriptions (unsubscribe tid w) = []"
    by (auto simp add: get_subscriptions_unsubscribe filter_empty_conv)
next
  assume "distinct (map tree_id (get_subscriptions w))"
  then show "distinct (map tree_id (get_subscriptions (subscribe tid m i p w)))"
    by (auto simp add: get_subscriptions_subscribe)
next
  assume "distinct (map tree_id (get_subscriptions w))"
  then show "distinct (map tree_id (get_subscriptions (unsubscribe tid w)))"
    by (simp add: get_subscriptions_unsubscribe distinct_map_filter)
qed

lemma registry_scenario:
  "get_subscriptions (subscribe 7 LATEST ''ip'' 1234 (example_world [] 0))
     = [\<lparr>tree_id = 7, mode = LATEST, ip = ''ip'', port = 1234\<rparr>]
   \<and> subscribe 7 LATEST ''ip'' 1234 (subscribe 7 LATEST ''ip'' 1234 (example_world [] 0))
     = subscribe 7 LATEST ''ip'' 1234 (example_world [] 0)
   \<and> get_subscriptions (unsubscribe 7 (subscribe 7 LATEST ''ip'' 1234 (example_world [] 0))) = []
   \<and> unsubscribe 7 (example_world [] 0) = example_world [] 0
   \<and> distinct (map tree_id (get_subscriptions (subscribe 7 LATEST ''ip'' 1234 (example_world [] 0))))"
proof -
  let ?W = "example_world [] 0"
  let ?W1 = "subscribe 7 LATEST ''ip'' 1234 ?W"
  have e: "get_subscriptions ?W = []" by (simp add: get_subscriptions_def example_world_def)
  then have a: "7 \<notin> tree_id ` set (get_subscriptions ?W)"
    and d: "distinct (map tree_id (get_subscriptions ?W))" by simp_all
  from registry_is_idempotent [of 7 ?W LATEST "''ip''" 1234] a e
  have l: "get_subscriptions ?W1 = [\<lparr>tree_id = 7, mode = LATEST, ip = ''ip'', port = 1234\<rparr>]"
    and u: "unsubscribe 7 ?W = ?W" by simp_all
  from l have b: "7 \<in> tree_id ` set (get_subscriptions ?W1)"
    and c: "tree_id ` set (get_subscriptions ?W1) \<subseteq> {7}" by simp_all
  from registry_is_idempotent [of 7 ?W1 LATEST "''ip''" 1234] b c
  have "subscribe 7 LATEST ''ip'' 1234 ?W1 = ?W1" "get_subscriptions (unsubscribe 7 ?W1) = []"
    by blast+
  moreover from l have "distinct (map tree_id (get_subscriptions ?W1))" by simp
  ultimately show ?thesis using l u by simp
qed

lemma undisturbed_task_is_subscribe:
  "run_schedule [First, First, First]
     (Checking \<lparr>tree_id = tid, mode = m, ip = i, port = p\<rparr>, t2) w
   = ((Returned, t2), subscribe tid m i p w)"
  by (simp add: subscribe_def Let_def)


section \<open>\<open>create_store\<close> and \<open>batch_update\<close> at concrete inputs\<close>

text \<open>
  C6. The wallet mints the identity 7 and \<^verbatim>\<open>create_tree\<close> returns \<^verbatim>\<open>None\<close>:
  \<open>create_store\<close> logs the failure as fatal and returns the transactions and the identity
  without raising, and the flag \<open>initialized\<close>, false before, is true after.
\<close>

theorem create_store_marks_initialized_after_failure:
  "fst (create_tree (example_env None [] True []) 7 (data_store (example_world [] 0))) = None
   \<and> \<not> initialized (example_world [] 0)
   \<and> fst (create_store (example_env None [] True []) 0 0 (example_world [] 0)) = Inr ([0], 7)
   \<and> log (snd (create_store (example_env None [] True []) 0 0 (example_world [] 0)))
       = [(FATAL, ''failed creating store'')]
   \<and> initialized (snd (create_store (example_env None [] True []) 0 0 (example_world [] 0)))"
  by (simp add: create_store_def example_env_def example_world_def log_msg_def call_def Let_def)

text \<open>
  C7. A changelist with one insert that supplies the side 0 (left) and no reference hash:
  \<open>batch_update\<close> performs the auto-placement insert only, then submits the root. The
  same insert with the side 1 performs the explicit insert and then the auto-placement
  insert.
\<close>

theorem batch_update_ignores_left_side:
  "side insert_left = Some 0
   \<and> trace (snd (batch_update (example_env None [] True []) 7 [insert_left] 0
                   (example_world [root_of 9 1] 0)))
       = [StoreAutoinsert [1] [2] 7, DlUpdateRoot 7 9 0]
   \<and> trace (snd (batch_update (example_env None [] True []) 7 [insert_right] 0
                   (example_world [root_of 9 1] 0)))
       = [StoreInsert [1] [2] 7 None (Some 1), StoreAutoinsert [1] [2] 7, DlUpdateRoot 7 9 0]
   \<and> fst (batch_update (example_env None [] True []) 7 [insert_left] 0
             (example_world [root_of 9 1] 0)) = Inr 0"
  by (simp add: batch_update_def apply_change_def store_call_def truthy_hint_def
        get_tree_root_def insert_left_def insert_right_def
        example_env_def example_world_def root_of_def call_def Let_def)

end
